theory Spec2Isabelle
  imports Main "HOL-Library.Multiset" "HOL-Library.AList"
begin

section \<open>Strings and numbers of the host language\<close>

text \<open>
  Strings are lists of code units. The white space set is the one shared by
  \<^verbatim>\<open>String.prototype.trim\<close> and the regular expression class \<^verbatim>\<open>\s\<close>,
  restricted to the code units below 256: tab, line feed, vertical tab, form feed,
  carriage return, space and no-break space.
\<close>

definition is_space :: "char \<Rightarrow> bool" where
  "is_space c = (c \<in> set [CHR 0x09, CHR 0x0A, CHR 0x0B, CHR 0x0C, CHR 0x0D, CHR 0x20, CHR 0xA0])"

text \<open>\<^verbatim>\<open>s.trim()\<close>\<close>

definition trim :: "string \<Rightarrow> string" where
  "trim s = rev (dropWhile is_space (rev (dropWhile is_space s)))"

text \<open>\<^verbatim>\<open>s.replace(/\s+/g, '')\<close>: every run of white space is deleted.\<close>

definition remove_ws :: "string \<Rightarrow> string" where
  "remove_ws s = filter (\<lambda>c. \<not> is_space c) s"

text \<open>The class \<^verbatim>\<open>\d\<close>: the ten ASCII digits.\<close>

definition is_digit :: "char \<Rightarrow> bool" where
  "is_digit c = (c \<in> set ''0123456789'')"

definition digit_val :: "char \<Rightarrow> nat" where
  "digit_val c = of_char c - 48"

text \<open>The character of a digit value; every call passes a value below 10.\<close>

definition digit_char :: "nat \<Rightarrow> char" where
  "digit_char n = ''0123456789'' ! n"

text \<open>\<^verbatim>\<open>parseInt(ds, 10)\<close> on a non-empty string of digits.\<close>

definition parseInt :: "string \<Rightarrow> nat" where
  "parseInt ds = foldl (\<lambda>n c. 10 * n + digit_val c) 0 ds"

text \<open>
  Number to string conversion (template literals, \<^verbatim>\<open>toString()\<close>) of a
  non-negative integer: its decimal digits, without leading zeros.
\<close>

fun toString :: "nat \<Rightarrow> string" where
  "toString n = (if n < 10 then [digit_char n] else toString (n div 10) @ [digit_char (n mod 10)])"

declare toString.simps [simp del]

text \<open>\<^verbatim>\<open>s.padStart(n, c)\<close> with a one-character filler.\<close>

definition padStart :: "nat \<Rightarrow> char \<Rightarrow> string \<Rightarrow> string" where
  "padStart n c s = replicate (n - length s) c @ s"

text \<open>
  \<^verbatim>\<open>toUpperCase()\<close> on the letters a to z; the source applies it to the
  meridiem group only, which holds ASCII letters.
\<close>

definition toUpperCase :: "char \<Rightarrow> char" where
  "toUpperCase c =
     (case map_of (zip ''abcdefghijklmnopqrstuvwxyz'' ''ABCDEFGHIJKLMNOPQRSTUVWXYZ'') c of
        None \<Rightarrow> c
      | Some u \<Rightarrow> u)"

section \<open>Time parsing and formatting (utils/timeSlots)\<close>

datatype error =
    InvalidTimeFormat string  \<comment> \<open>\<^verbatim>\<open>Invalid time format: ${timeString}\<close>\<close>
  | AlreadyBooked             \<comment> \<open>\<^verbatim>\<open>This time slot is already booked\<close>\<close>
  | AppointmentNotFound       \<comment> \<open>\<^verbatim>\<open>Appointment not found\<close>\<close>

record time =
  hours :: nat
  minutes :: nat

text \<open>
  The match of \<^verbatim>\<open>/^(\d{1,2}):(\d{2})(AM|PM)$/i\<close> against the whole string:
  the three groups, or None. The colon is no digit, so the hour group is the
  whole digit prefix and the match is unique.
\<close>

definition meridiem :: "string \<Rightarrow> bool" where
  "meridiem p = (map toUpperCase p = ''AM'' \<or> map toUpperCase p = ''PM'')"

fun match_time :: "string \<Rightarrow> (string \<times> string \<times> string) option" where
  "match_time [h1, c, m1, m2, p1, p2] =
     (if is_digit h1 \<and> c = CHR '':'' \<and> is_digit m1 \<and> is_digit m2 \<and> meridiem [p1, p2]
      then Some ([h1], [m1, m2], [p1, p2]) else None)"
| "match_time [h1, h2, c, m1, m2, p1, p2] =
     (if is_digit h1 \<and> is_digit h2 \<and> c = CHR '':'' \<and> is_digit m1 \<and> is_digit m2 \<and> meridiem [p1, p2]
      then Some ([h1, h2], [m1, m2], [p1, p2]) else None)"
| "match_time _ = None"

definition parseTime :: "string \<Rightarrow> error + time" where
  "parseTime timeString =
     (let cleaned = remove_ws (trim timeString) in
      case match_time cleaned of
        None \<Rightarrow> Inl (InvalidTimeFormat timeString)
      | Some (g1, g2, g3) \<Rightarrow>
          (let hrs = parseInt g1;
               mins = parseInt g2;
               period = map toUpperCase g3
           in if period = ''PM'' \<and> hrs \<noteq> 12 then Inr \<lparr>hours = hrs + 12, minutes = mins\<rparr>
              else if period = ''AM'' \<and> hrs = 12 then Inr \<lparr>hours = 0, minutes = mins\<rparr>
              else Inr \<lparr>hours = hrs, minutes = mins\<rparr>))"

definition formatTime :: "nat \<Rightarrow> nat \<Rightarrow> string" where
  "formatTime hrs mins =
     (let period = (if hrs \<ge> 12 then ''PM'' else ''AM'');
          displayHours = (if hrs = 0 then 12 else if hrs > 12 then hrs - 12 else hrs);
          displayMinutes = padStart 2 CHR ''0'' (toString mins)
      in toString displayHours @ '':'' @ displayMinutes @ '' '' @ period)"

section \<open>Data model (types/index)\<close>

record DoctorScheduleRaw =
  raw_name :: string
  raw_timezone :: string
  day_of_week :: string
  available_at :: string
  available_until :: string

record DoctorSchedule =
  dayOfWeek :: string
  availableAt :: string
  availableUntil :: string

record Doctor =
  name :: string
  timezone :: string
  schedules :: "DoctorSchedule list"

record TimeSlot =
  startTime :: string
  endTime :: string
  isAvailable :: bool
  isBooked :: bool
  slot_date :: "string option"  \<comment> \<open>the optional field \<^verbatim>\<open>date?\<close>\<close>

record Appointment =
  appt_id :: string
  doctorName :: string
  doctorTimezone :: string
  date :: string
  appt_dayOfWeek :: string
  appt_startTime :: string
  appt_endTime :: string
  bookedAt :: string

section \<open>Slot generation\<close>

text \<open>
  The \<^verbatim>\<open>while\<close> loop of \<^verbatim>\<open>generateTimeSlots\<close>. Its state is the three
  counters and the array built so far; \<^verbatim>\<open>push\<close> appends at the end.
\<close>

function slot_loop :: "nat \<Rightarrow> nat \<Rightarrow> nat \<Rightarrow> nat \<Rightarrow> TimeSlot list \<Rightarrow> TimeSlot list" where
  "slot_loop endTotalMinutes currentHours currentMinutes currentTotalMinutes slots =
     (if currentTotalMinutes < endTotalMinutes then
        slot_loop endTotalMinutes
          ((currentTotalMinutes + 30) div 60)
          ((currentTotalMinutes + 30) mod 60)
          (currentTotalMinutes + 30)
          (slots @
            [\<lparr>startTime = formatTime currentHours currentMinutes,
              endTime = formatTime ((currentTotalMinutes + 30) div 60) ((currentTotalMinutes + 30) mod 60),
              isAvailable = True,
              isBooked = False,
              slot_date = None\<rparr>])
      else slots)"
  by pat_completeness auto
termination
  by (relation "measure (\<lambda>(e, h, m, c, s). e - c)") auto

declare slot_loop.simps [simp del]

definition generateTimeSlots :: "string \<Rightarrow> string \<Rightarrow> error + TimeSlot list" where
  "generateTimeSlots startText endText =
     (case parseTime startText of
        Inl e \<Rightarrow> Inl e
      | Inr start \<Rightarrow>
          (case parseTime endText of
             Inl e \<Rightarrow> Inl e
           | Inr end \<Rightarrow>
               Inr (slot_loop (hours end * 60 + minutes end)
                      (hours start) (minutes start)
                      (hours start * 60 + minutes start) [])))"

section \<open>Booking reconciliation\<close>

definition isSlotBooked :: "TimeSlot \<Rightarrow> string \<Rightarrow> string \<Rightarrow> Appointment list \<Rightarrow> bool" where
  "isSlotBooked slot dateStr doctor appointments =
     list_ex (\<lambda>appt. doctorName appt = doctor \<and> date appt = dateStr \<and>
                     appt_startTime appt = startTime slot \<and> appt_endTime appt = endTime slot)
       appointments"

definition markBookedSlots :: "TimeSlot list \<Rightarrow> string \<Rightarrow> string \<Rightarrow> Appointment list \<Rightarrow> TimeSlot list" where
  "markBookedSlots slots dateStr doctor appointments =
     map (\<lambda>slot. slot\<lparr>isBooked := isSlotBooked slot dateStr doctor appointments,
                       isAvailable := \<not> isSlotBooked slot dateStr doctor appointments\<rparr>) slots"

section \<open>The appointment store (stores/appointments)\<close>

text \<open>
  The ledger is the array \<^verbatim>\<open>appointments.value\<close>. An action returns the error
  it throws, if any, and the ledger as the call leaves it. \<^verbatim>\<open>saveAppointments\<close>
  reads the array and catches its own failures, so it does not change the ledger.
\<close>

type_synonym ledger = "Appointment list"

definition bookAppointment :: "Appointment \<Rightarrow> ledger \<Rightarrow> error option \<times> ledger" where
  "bookAppointment appointment appointments =
     (let isAlreadyBooked =
            list_ex (\<lambda>appt. doctorName appt = doctorName appointment \<and>
                            date appt = date appointment \<and>
                            appt_startTime appt = appt_startTime appointment) appointments
      in if isAlreadyBooked then (Some AlreadyBooked, appointments)
         else (None, appointments @ [appointment]))"

text \<open>\<^verbatim>\<open>findIndex\<close>: the index of the first match; None stands for -1.\<close>

fun findIndex :: "('a \<Rightarrow> bool) \<Rightarrow> 'a list \<Rightarrow> nat option" where
  "findIndex P [] = None"
| "findIndex P (x # xs) = (if P x then Some 0 else map_option Suc (findIndex P xs))"

text \<open>\<^verbatim>\<open>xs.splice(index, 1)\<close> with an index in range.\<close>

definition splice1 :: "nat \<Rightarrow> 'a list \<Rightarrow> 'a list" where
  "splice1 index xs = take index xs @ drop (Suc index) xs"

definition cancelAppointment :: "string \<Rightarrow> ledger \<Rightarrow> error option \<times> ledger" where
  "cancelAppointment appointmentId appointments =
     (case findIndex (\<lambda>appt. appt_id appt = appointmentId) appointments of
        None \<Rightarrow> (Some AppointmentNotFound, appointments)
      | Some index \<Rightarrow> (None, splice1 index appointments))"

text \<open>A caller's sequence of store actions; a failed action is caught by the caller.\<close>

datatype action = Book Appointment | Cancel string

fun perform :: "action \<Rightarrow> ledger \<Rightarrow> error option \<times> ledger" where
  "perform (Book a) l = bookAppointment a l"
| "perform (Cancel i) l = cancelAppointment i l"

fun run :: "action list \<Rightarrow> ledger \<Rightarrow> ledger" where
  "run [] l = l"
| "run (act # acts) l = run acts (snd (perform act l))"

definition slot_key :: "Appointment \<Rightarrow> string \<times> string \<times> string" where
  "slot_key a = (doctorName a, date a, appt_startTime a)"

section \<open>Derived views of the store\<close>

text \<open>
  \<^verbatim>\<open>Array.prototype.sort\<close> with a comparator: a stable sort; an element goes
  before the first later element it does not compare greater than.
\<close>

fun insert_by :: "('a \<Rightarrow> 'a \<Rightarrow> int) \<Rightarrow> 'a \<Rightarrow> 'a list \<Rightarrow> 'a list" where
  "insert_by cmp x [] = [x]"
| "insert_by cmp x (y # ys) = (if cmp x y \<le> 0 then x # y # ys else y # insert_by cmp x ys)"

definition sort_by :: "('a \<Rightarrow> 'a \<Rightarrow> int) \<Rightarrow> 'a list \<Rightarrow> 'a list" where
  "sort_by cmp xs = foldr (insert_by cmp) xs []"

text \<open>
  The time value of \<^verbatim>\<open>new Date(text)\<close> is a parameter \<open>newDate\<close> of the views:
  milliseconds since the epoch, or None for an invalid date, whose time value is NaN.
  A comparison with NaN is false and a comparator result of NaN counts as 0.
\<close>

definition getTime_minus :: "int option \<Rightarrow> int option \<Rightarrow> int" where
  "getTime_minus a b = (case (a, b) of (Some x, Some y) \<Rightarrow> x - y | _ \<Rightarrow> 0)"

definition upcomingAppointments :: "(string \<Rightarrow> int option) \<Rightarrow> int \<Rightarrow> ledger \<Rightarrow> Appointment list" where
  "upcomingAppointments newDate now appointments =
     sort_by (\<lambda>a b. getTime_minus (newDate (date a)) (newDate (date b)))
       (filter (\<lambda>appt. case newDate (date appt) of Some apptDate \<Rightarrow> apptDate \<ge> now | None \<Rightarrow> False)
          appointments)"

definition pastAppointments :: "(string \<Rightarrow> int option) \<Rightarrow> int \<Rightarrow> ledger \<Rightarrow> Appointment list" where
  "pastAppointments newDate now appointments =
     sort_by (\<lambda>a b. getTime_minus (newDate (date b)) (newDate (date a)))
       (filter (\<lambda>appt. case newDate (date appt) of Some apptDate \<Rightarrow> apptDate < now | None \<Rightarrow> False)
          appointments)"

section \<open>Calendar dates (utils/dateHelpers)\<close>

text \<open>A \<^verbatim>\<open>Date\<close> object as the helpers read it: its local calendar fields.\<close>

record Date =
  getFullYear :: nat
  getMonth :: nat     \<comment> \<open>0 to 11\<close>
  getDate :: nat      \<comment> \<open>1 to 31\<close>
  getDay :: nat       \<comment> \<open>0 (Sunday) to 6\<close>

definition days :: "string list" where
  "days = [''Sunday'', ''Monday'', ''Tuesday'', ''Wednesday'', ''Thursday'', ''Friday'', ''Saturday'']"

text \<open>\<^verbatim>\<open>days[dayIndex]\<close>; None stands for the undefined of an index out of range.\<close>

definition getDayOfWeek :: "Date \<Rightarrow> string option" where
  "getDayOfWeek d = (let dayIndex = getDay d in if dayIndex < length days then Some (days ! dayIndex) else None)"

definition formatDate :: "Date \<Rightarrow> string" where
  "formatDate d =
     (let year = getFullYear d;
          month = padStart 2 CHR ''0'' (toString (getMonth d + 1));
          day = padStart 2 CHR ''0'' (toString (getDate d))
      in toString year @ ''-'' @ month @ ''-'' @ day)"

text \<open>
  \<^verbatim>\<open>getNextWeekDates\<close>: the copy of today moved on by i days through
  \<^verbatim>\<open>setDate(today.getDate() + i)\<close>, the calendar arithmetic of the platform,
  is the parameter \<open>addDays\<close>.
\<close>

definition getNextWeekDates :: "(Date \<Rightarrow> nat \<Rightarrow> Date) \<Rightarrow> Date \<Rightarrow> Date list" where
  "getNextWeekDates addDays today = map (addDays today) [0..<7]"

text \<open>
  The time value \<^verbatim>\<open>new Date(text)\<close> has for a date-only string
  \<^verbatim>\<open>YYYY-MM-DD\<close>: midnight UTC of that day. \<open>days_from_civil\<close> counts the days
  from 1970-01-01 in the proleptic Gregorian calendar; a day number up to 31 that
  is beyond the length of the month runs on into the next month, as V8 parses it.
  Other string forms are outside this parser.
\<close>

definition days_from_civil :: "int \<Rightarrow> int \<Rightarrow> int \<Rightarrow> int" where
  "days_from_civil y m d =
     (let y' = (if m \<le> 2 then y - 1 else y);
          era = y' div 400;
          yoe = y' - era * 400;
          doy = (153 * (if m > 2 then m - 3 else m + 9) + 2) div 5 + d - 1;
          doe = yoe * 365 + yoe div 4 - yoe div 100 + doy
      in era * 146097 + doe - 719468)"

fun Date_parse_date_only :: "string \<Rightarrow> int option" where
  "Date_parse_date_only [y1, y2, y3, y4, s1, m1, m2, s2, d1, d2] =
     (let y = int (parseInt [y1, y2, y3, y4]); m = int (parseInt [m1, m2]); d = int (parseInt [d1, d2])
      in if list_all is_digit [y1, y2, y3, y4, m1, m2, d1, d2] \<and> s1 = CHR ''-'' \<and> s2 = CHR ''-'' \<and>
            1 \<le> m \<and> m \<le> 12 \<and> 1 \<le> d \<and> d \<le> 31
         then Some (days_from_civil y m d * 86400000) else None)"
| "Date_parse_date_only _ = None"

text \<open>
  The time value of 00:00 local time on the calendar day of \<open>d\<close>, in a zone
  whose clocks are \<open>offsetMinutes\<close> ahead of UTC.
\<close>

definition local_midnight :: "int \<Rightarrow> Date \<Rightarrow> int" where
  "local_midnight offsetMinutes d =
     days_from_civil (int (getFullYear d)) (int (getMonth d) + 1) (int (getDate d)) * 86400000
       - offsetMinutes * 60000"

section \<open>Grouping raw records by doctor (services/api)\<close>

text \<open>
  The \<^verbatim>\<open>Map\<close> is an association list in insertion order: \<^verbatim>\<open>set\<close> on a new
  key appends, on a present key it replaces the value in place. The doctor object
  is held by the map, so the \<^verbatim>\<open>push\<close> on its schedules is an update at its key.
\<close>

type_synonym doctorMap = "(string \<times> Doctor) list"

text \<open>The schedule entry pushed for a raw record.\<close>

definition schedule_entry :: "DoctorScheduleRaw \<Rightarrow> DoctorSchedule" where
  "schedule_entry sched =
     \<lparr>dayOfWeek = day_of_week sched,
      availableAt = trim (available_at sched),
      availableUntil = trim (available_until sched)\<rparr>"

text \<open>The body of the \<^verbatim>\<open>forEach\<close>.\<close>

definition group_step :: "doctorMap \<Rightarrow> DoctorScheduleRaw \<Rightarrow> doctorMap" where
  "group_step doctorMap sched =
     (let doctorMap1 =
            (if map_of doctorMap (raw_name sched) = None
             then AList.update (raw_name sched)
                    \<lparr>name = raw_name sched, timezone = raw_timezone sched, schedules = []\<rparr> doctorMap
             else doctorMap)
      in case map_of doctorMap1 (raw_name sched) of
           None \<Rightarrow> doctorMap1  \<comment> \<open>not reached: the key was set above\<close>
         | Some doctor \<Rightarrow>
             AList.update (raw_name sched)
               (doctor\<lparr>schedules := schedules doctor @ [schedule_entry sched]\<rparr>)
               doctorMap1)"

definition groupSchedulesByDoctor :: "DoctorScheduleRaw list \<Rightarrow> Doctor list" where
  "groupSchedulesByDoctor scheds = map snd (foldl group_step [] scheds)"

section \<open>Weekly projection (components/TimeSlotGrid)\<close>

record DayInfo =
  info_date :: Date
  dateString :: string
  dayName :: "string option"
  displayDate :: string
  schedule :: "DoctorSchedule option"
  slots :: "TimeSlot list"

text \<open>
  The callback of the \<^verbatim>\<open>forEach\<close> over the week dates: the entry it pushes
  for one date, or the error \<^verbatim>\<open>generateTimeSlots\<close> throws.
  \<^verbatim>\<open>formatDisplayDate\<close> renders through the locale of the platform and is a
  parameter.
\<close>

definition day_entry :: "(Date \<Rightarrow> string) \<Rightarrow> Doctor \<Rightarrow> Appointment list \<Rightarrow> Date \<Rightarrow> error + DayInfo" where
  "day_entry formatDisplayDate doctor appointments d =
     (case find (\<lambda>s. Some (dayOfWeek s) = getDayOfWeek d) (schedules doctor) of
        Some sched \<Rightarrow>
          (case generateTimeSlots (availableAt sched) (availableUntil sched) of
             Inl e \<Rightarrow> Inl e
           | Inr sl \<Rightarrow>
               Inr \<lparr>info_date = d, dateString = formatDate d, dayName = getDayOfWeek d,
                    displayDate = formatDisplayDate d, schedule = Some sched,
                    slots = markBookedSlots sl (formatDate d) (name doctor) appointments\<rparr>)
      | None \<Rightarrow>
          Inr \<lparr>info_date = d, dateString = formatDate d, dayName = getDayOfWeek d,
               displayDate = formatDisplayDate d, schedule = None, slots = []\<rparr>)"

text \<open>The loop, with the result array built so far; a thrown error leaves it.\<close>

fun slotsPerDay_loop ::
  "(Date \<Rightarrow> string) \<Rightarrow> Doctor \<Rightarrow> Appointment list \<Rightarrow> Date list \<Rightarrow> DayInfo list \<Rightarrow> error + DayInfo list" where
  "slotsPerDay_loop formatDisplayDate doctor appointments [] result = Inr result"
| "slotsPerDay_loop formatDisplayDate doctor appointments (d # ds) result =
     (case day_entry formatDisplayDate doctor appointments d of
        Inl e \<Rightarrow> Inl e
      | Inr entry \<Rightarrow> slotsPerDay_loop formatDisplayDate doctor appointments ds (result @ [entry]))"

definition slotsPerDay ::
  "(Date \<Rightarrow> string) \<Rightarrow> Doctor \<Rightarrow> Appointment list \<Rightarrow> Date list \<Rightarrow> error + DayInfo list" where
  "slotsPerDay formatDisplayDate doctor appointments weekDates =
     slotsPerDay_loop formatDisplayDate doctor appointments weekDates []"

text \<open>
  Window \<open>k\<close> of a schedule list is the first one for a weekday name: it has the
  name and no window before it has.
\<close>

definition first_window :: "string option \<Rightarrow> DoctorSchedule list \<Rightarrow> nat \<Rightarrow> bool" where
  "first_window wd ws k =
     (k < length ws \<and> Some (dayOfWeek (ws ! k)) = wd \<and> (\<forall>j < k. Some (dayOfWeek (ws ! j)) \<noteq> wd))"

section \<open>Example inputs\<close>

text \<open>A doctor with two windows on Monday, and a Monday followed by a Tuesday.\<close>

definition example_doctor :: Doctor where
  "example_doctor =
     \<lparr>name = ''Dr. Smith'', timezone = ''America/New_York'',
      schedules = [\<lparr>dayOfWeek = ''Monday'', availableAt = ''9:00 AM'', availableUntil = ''10:00 AM''\<rparr>,
                   \<lparr>dayOfWeek = ''Monday'', availableAt = ''1:00 PM'', availableUntil = ''2:00 PM''\<rparr>]\<rparr>"

definition example_monday :: Date where
  "example_monday = \<lparr>getFullYear = 2025, getMonth = 10, getDate = 17, getDay = 1\<rparr>"

definition example_tuesday :: Date where
  "example_tuesday = \<lparr>getFullYear = 2025, getMonth = 10, getDate = 18, getDay = 2\<rparr>"

text \<open>Saturday 15 November 2025, and an appointment on that day.\<close>

definition example_saturday :: Date where
  "example_saturday = \<lparr>getFullYear = 2025, getMonth = 10, getDate = 15, getDay = 6\<rparr>"

section \<open>Test data (tests/helpers/mockData)\<close>

definition mockAppointment :: Appointment where
  "mockAppointment =
     \<lparr>appt_id = ''1'', doctorName = ''Dr. Smith'', doctorTimezone = ''America/New_York'',
      date = ''2025-11-17'', appt_dayOfWeek = ''Monday'', appt_startTime = ''9:00 AM'',
      appt_endTime = ''9:30 AM'', bookedAt = ''2025-11-14T10:00:00.000Z''\<rparr>"

definition saturday_appointment :: Appointment where
  "saturday_appointment = mockAppointment\<lparr>date := ''2025-11-15'', appt_dayOfWeek := ''Saturday''\<rparr>"

section \<open>Properties of the time parser\<close>

lemma remove_ws_dropWhile: "remove_ws (dropWhile is_space s) = remove_ws s"
  by (induction s) (simp_all add: remove_ws_def)

lemma remove_ws_rev: "remove_ws (rev s) = rev (remove_ws s)"
  by (simp add: remove_ws_def rev_filter)

lemma remove_ws_trim: "remove_ws (trim s) = remove_ws s"
  by (simp add: trim_def remove_ws_rev remove_ws_dropWhile)

lemma len1or2: "length hs = 1 \<or> length hs = 2 \<Longrightarrow> (\<exists>a. hs = [a]) \<or> (\<exists>a b. hs = [a, b])"
  by (cases hs; simp; cases "tl hs"; auto)

lemma len2: "length ms = 2 \<Longrightarrow> \<exists>a b. ms = [a, b]"
  by (cases ms; simp; cases "tl ms"; auto)

lemma match_time_shape:
  assumes "length hs = 1 \<or> length hs = 2" "list_all is_digit hs"
      and "length ms = 2" "list_all is_digit ms"
      and "length p = 2" "meridiem p"
  shows "match_time (hs @ '':'' @ ms @ p) = Some (hs, ms, p)"
proof -
  obtain m1 m2 where ms: "ms = [m1, m2]" using len2 [OF assms(3)] by blast
  obtain p1 p2 where p: "p = [p1, p2]" using len2 [OF assms(5)] by blast
  from len1or2 [OF assms(1)] show ?thesis
  proof
    assume "\<exists>a. hs = [a]"
    then obtain a where "hs = [a]" ..
    with assms ms p show ?thesis by simp
  next
    assume "\<exists>a b. hs = [a, b]"
    then obtain a b where "hs = [a, b]" by blast
    with assms ms p show ?thesis by simp
  qed
qed

text \<open>Conversely, only strings of that shape match.\<close>

lemma match_time_only_shape:
  "match_time s = Some (hs, ms, p) \<Longrightarrow>
     s = hs @ '':'' @ ms @ p \<and> (length hs = 1 \<or> length hs = 2) \<and> list_all is_digit hs \<and>
     length ms = 2 \<and> list_all is_digit ms \<and> length p = 2 \<and> meridiem p"
  by (induction s rule: match_time.induct) (auto split: if_splits)

text \<open>
  What \<open>parseTime\<close> returns on every text that the pattern matches once its
  white space is gone: hour digits \<open>hs\<close>, minute digits \<open>ms\<close>, marker \<open>p\<close>.
\<close>

lemma parseTime_matched:
  assumes "remove_ws x = hs @ '':'' @ ms @ p"
      and "length hs = 1 \<or> length hs = 2" "list_all is_digit hs"
      and "length ms = 2" "list_all is_digit ms"
      and "length p = 2" "meridiem p"
  shows "parseTime x =
           Inr \<lparr>hours = (if map toUpperCase p = ''PM'' \<and> parseInt hs \<noteq> 12 then parseInt hs + 12
                          else if map toUpperCase p = ''AM'' \<and> parseInt hs = 12 then 0
                          else parseInt hs),
                minutes = parseInt ms\<rparr>"
  using match_time_shape [OF assms(2-7)] assms(1)
  by (simp add: parseTime_def remove_ws_trim Let_def)

lemma marker_length: "map toUpperCase p = ''AM'' \<or> map toUpperCase p = ''PM'' \<Longrightarrow> length p = 2"
  by (auto dest: arg_cong [where f = length])

text \<open>
  C3. \<open>parseTime\<close> puts no upper bound on the hour: \<^verbatim>\<open>13:00PM\<close> parses to hour
  25 and minute 0, and every matched text with a PM marker and an hour \<open>h\<close> other
  than 12 parses to hour \<open>h + 12\<close>, whatever the one or two hour digits are.
\<close>

theorem parseTime_hour_unbounded:
  "parseTime ''13:00PM'' = Inr \<lparr>hours = 25, minutes = 0\<rparr> \<and>
   (remove_ws x = hs @ '':'' @ ms @ p \<and> (length hs = 1 \<or> length hs = 2) \<and> list_all is_digit hs \<and>
    length ms = 2 \<and> list_all is_digit ms \<and> map toUpperCase p = ''PM'' \<and> parseInt hs \<noteq> 12
    \<longrightarrow> parseTime x = Inr \<lparr>hours = parseInt hs + 12, minutes = parseInt ms\<rparr>)"
proof (intro conjI impI)
  show "parseTime ''13:00PM'' = Inr \<lparr>hours = 25, minutes = 0\<rparr>"
    by code_simp
next
  assume a: "remove_ws x = hs @ '':'' @ ms @ p \<and> (length hs = 1 \<or> length hs = 2) \<and> list_all is_digit hs \<and>
    length ms = 2 \<and> list_all is_digit ms \<and> map toUpperCase p = ''PM'' \<and> parseInt hs \<noteq> 12"
  then have "length p = 2" "meridiem p"
    by (simp_all add: marker_length meridiem_def)
  with a show "parseTime x = Inr \<lparr>hours = parseInt hs + 12, minutes = parseInt ms\<rparr>"
    using parseTime_matched [of x hs ms p] by simp
qed

theorem parseTime_hour_unbounded_witness:
  "parseTime ''13:00PM'' = Inr \<lparr>hours = 25, minutes = 0\<rparr> \<and>
   parseTime '' 99:30 pm'' = Inr \<lparr>hours = 111, minutes = 30\<rparr>"
  using parseTime_hour_unbounded [of "'' 99:30 pm''" "''99''" "''30''" "''pm''"]
  by (simp add: remove_ws_def is_space_def is_digit_def toUpperCase_def parseInt_def digit_val_def)

text \<open>
  C10. \<open>parseTime\<close> puts no bound on the minute either: \<^verbatim>\<open>9:75AM\<close> parses to
  hour 9 and minute 75, and every matched text parses, with the value of its two
  minute digits returned as they are.
\<close>

theorem parseTime_minute_unbounded:
  "parseTime ''9:75AM'' = Inr \<lparr>hours = 9, minutes = 75\<rparr> \<and>
   (remove_ws x = hs @ '':'' @ ms @ p \<and> (length hs = 1 \<or> length hs = 2) \<and> list_all is_digit hs \<and>
    length ms = 2 \<and> list_all is_digit ms \<and> (map toUpperCase p = ''AM'' \<or> map toUpperCase p = ''PM'')
    \<longrightarrow> (\<exists>t. parseTime x = Inr t \<and> minutes t = parseInt ms))"
proof (intro conjI impI)
  show "parseTime ''9:75AM'' = Inr \<lparr>hours = 9, minutes = 75\<rparr>"
    by code_simp
next
  assume a: "remove_ws x = hs @ '':'' @ ms @ p \<and> (length hs = 1 \<or> length hs = 2) \<and> list_all is_digit hs \<and>
    length ms = 2 \<and> list_all is_digit ms \<and> (map toUpperCase p = ''AM'' \<or> map toUpperCase p = ''PM'')"
  then have "length p = 2" "meridiem p"
    by (simp_all add: marker_length meridiem_def)
  with a show "\<exists>t. parseTime x = Inr t \<and> minutes t = parseInt ms"
    using parseTime_matched [of x hs ms p] by simp
qed

theorem parseTime_minute_unbounded_witness:
  "parseTime ''9:75AM'' = Inr \<lparr>hours = 9, minutes = 75\<rparr> \<and>
   (\<exists>t. parseTime ''11:99 Am'' = Inr t \<and> minutes t = 99)"
  using parseTime_minute_unbounded [of "''11:99 Am''" "''11''" "''99''" "''Am''"]
  by (simp add: remove_ws_def is_space_def is_digit_def toUpperCase_def parseInt_def digit_val_def)

section \<open>Parsing then formatting\<close>

lemma is_digit_val: "is_digit c \<Longrightarrow> digit_val c < 10 \<and> digit_char (digit_val c) = c"
  unfolding is_digit_def digit_val_def digit_char_def by auto

lemma parseInt_1: "parseInt [a] = digit_val a"
  by (simp add: parseInt_def)

lemma parseInt_2: "parseInt [a, b] = 10 * digit_val a + digit_val b"
  by (simp add: parseInt_def)

lemma toString_small: "n < 10 \<Longrightarrow> toString n = [digit_char n]"
  by (simp add: toString.simps)

lemma toString_two: "0 < a \<Longrightarrow> a < 10 \<Longrightarrow> b < 10 \<Longrightarrow> toString (10 * a + b) = [digit_char a, digit_char b]"
  by (subst toString.simps) (simp add: toString_small)

lemma digit_char_0: "digit_char 0 = CHR ''0''"
  by (simp add: digit_char_def)

lemma is_digit_zero: "is_digit c \<Longrightarrow> digit_val c = 0 \<Longrightarrow> c = CHR ''0''"
  using is_digit_val [of c] by (simp add: digit_char_0)

lemma pad_minutes:
  assumes "is_digit m1" "is_digit m2"
  shows "padStart 2 CHR ''0'' (toString (parseInt [m1, m2])) = [m1, m2]"
proof (cases "digit_val m1 = 0")
  case True
  with assms show ?thesis
    using is_digit_val [of m2] is_digit_zero [of m1]
    by (simp add: parseInt_2 toString_small padStart_def)
next
  case False
  with assms show ?thesis
    using is_digit_val [of m1] is_digit_val [of m2]
    by (simp add: parseInt_2 toString_two padStart_def)
qed

lemma toString_parseInt_canonical:
  assumes "length hs = 1 \<or> length hs = 2" "list_all is_digit hs" "hd hs \<noteq> CHR ''0'' \<or> length hs = 1"
  shows "toString (parseInt hs) = hs"
proof -
  from len1or2 [OF assms(1)] show ?thesis
  proof
    assume "\<exists>a. hs = [a]"
    then obtain a where "hs = [a]" ..
    with assms show ?thesis using is_digit_val [of a] by (simp add: parseInt_1 toString_small)
  next
    assume "\<exists>a b. hs = [a, b]"
    then obtain a b where hs: "hs = [a, b]" by blast
    with assms have "digit_val a \<noteq> 0" using is_digit_zero [of a] by auto
    with hs assms show ?thesis
      using is_digit_val [of a] is_digit_val [of b] by (simp add: parseInt_2 toString_two)
  qed
qed

lemma formatTime_of_parsed:
  assumes "1 \<le> h" "h \<le> 12"
  shows "formatTime (if pm \<and> h \<noteq> 12 then h + 12 else if \<not> pm \<and> h = 12 then 0 else h) m =
         toString h @ '':'' @ padStart 2 CHR ''0'' (toString m) @ '' '' @ (if pm then ''PM'' else ''AM'')"
  using assms by (auto simp add: formatTime_def Let_def)

text \<open>
  C4. Round trip. Let \<open>x\<close> be a 12-hour time text: with its white space removed it
  reads hour digits \<open>hs\<close> of value 1 to 12, a colon, two minute digits \<open>ms\<close> and
  an AM or PM marker \<open>p\<close> in either case. Then \<open>parseTime x\<close> succeeds and
  \<open>formatTime\<close> of its hour and minute is the canonical text: the hour without a
  leading zero, the colon, \<open>ms\<close>, one space and the marker in upper case. When
  the hour is written without a leading zero and the marker in upper case, that
  is \<open>x\<close> itself up to white space.
\<close>

theorem parse_format_roundtrip:
  assumes "remove_ws x = hs @ '':'' @ ms @ p"
      and "length hs = 1 \<or> length hs = 2" and "list_all is_digit hs"
      and "1 \<le> parseInt hs" and "parseInt hs \<le> 12"
      and "length ms = 2" and "list_all is_digit ms"
      and "map toUpperCase p = ''AM'' \<or> map toUpperCase p = ''PM''"
  shows "\<exists>t. parseTime x = Inr t \<and>
             formatTime (hours t) (minutes t) = toString (parseInt hs) @ '':'' @ ms @ '' '' @ map toUpperCase p \<and>
             ((hd hs \<noteq> CHR ''0'' \<or> length hs = 1) \<and> map toUpperCase p = p \<longrightarrow>
                formatTime (hours t) (minutes t) = hs @ '':'' @ ms @ '' '' @ p)"
proof -
  have lp: "length p = 2" using assms(8) by (rule marker_length)
  have mer: "meridiem p" using assms(8) by (simp add: meridiem_def)
  obtain m1 m2 where ms: "ms = [m1, m2]" using len2 [OF assms(6)] by blast
  have pad: "padStart 2 CHR ''0'' (toString (parseInt ms)) = ms"
    using assms(7) ms by (simp add: pad_minutes)
  let ?pm = "map toUpperCase p = ''PM''"
  have per: "map toUpperCase p = (if ?pm then ''PM'' else ''AM'')" using assms(8) by auto
  have pt: "parseTime x = Inr \<lparr>hours = (if ?pm \<and> parseInt hs \<noteq> 12 then parseInt hs + 12
                          else if \<not> ?pm \<and> parseInt hs = 12 then 0
                          else parseInt hs), minutes = parseInt ms\<rparr>"
    using parseTime_matched [OF assms(1,2,3,6,7) lp mer] assms(8) by auto
  have fmt: "formatTime (if ?pm \<and> parseInt hs \<noteq> 12 then parseInt hs + 12
                          else if \<not> ?pm \<and> parseInt hs = 12 then 0
                          else parseInt hs) (parseInt ms) = toString (parseInt hs) @ '':'' @ ms @ '' '' @ map toUpperCase p"
    using formatTime_of_parsed [OF assms(4,5), of ?pm "parseInt ms"] pad per by simp
  show ?thesis
    using pt fmt toString_parseInt_canonical [OF assms(2,3)] by auto
qed

theorem parse_format_roundtrip_witness:
  "(\<exists>t. parseTime '' 09:05  pm '' = Inr t \<and> formatTime (hours t) (minutes t) = ''9:05 PM'') \<and>
   (\<exists>t. parseTime ''12:30AM'' = Inr t \<and> formatTime (hours t) (minutes t) = ''12:30 AM'')"
  using parse_format_roundtrip [of "'' 09:05  pm ''" "''09''" "''05''" "''pm''"]
        parse_format_roundtrip [of "''12:30AM''" "''12''" "''30''" "''AM''"]
  by (simp add: remove_ws_def is_space_def is_digit_def toUpperCase_def parseInt_def digit_val_def
        toString.simps digit_char_def)

section \<open>Properties of slot generation\<close>

text \<open>
  The loop runs once for every started half hour between the two bounds: the
  number of slots is the difference divided by 30 and rounded up, and 0 when the
  end is not after the start.
\<close>

lemma ceil_step:
  assumes "(c::nat) < e"
  shows "(e - c + 29) div 30 = Suc ((e - (c + 30) + 29) div 30)"
proof -
  obtain k where k: "e - c = Suc k" using assms by (cases "e - c") simp_all
  have tail: "e - (c + 30) = Suc k - 30"
    using k by (simp add: diff_diff_left [symmetric] del: diff_diff_left)
  have "(e - (c + 30) + 29) div 30 = k div 30"
  proof (cases "30 \<le> Suc k")
    case True
    then have "Suc k - 30 + 29 = k" by simp
    with tail show ?thesis by simp
  next
    case False
    then have "Suc k - 30 = 0" "k < 30" by simp_all
    with tail show ?thesis by simp
  qed
  moreover have "(e - c + 29) div 30 = Suc (k div 30)" using k by simp
  ultimately show ?thesis by simp
qed

lemma slot_loop_length:
  "length (slot_loop e h m c sl) = length sl + (e - c + 29) div 30"
proof (induction e h m c sl rule: slot_loop.induct)
  case (1 e h m c sl)
  show ?case
  proof (cases "c < e")
    case True
    with "1" have "length (slot_loop e h m c sl) = Suc (length sl) + (e - (c + 30) + 29) div 30"
      by (subst slot_loop.simps) simp
    then show ?thesis by (simp only: ceil_step [OF True] add_Suc add_Suc_right)
  next
    case False
    then show ?thesis by (subst slot_loop.simps) simp
  qed
qed

lemma slot_loop_flags:
  "\<forall>s \<in> set sl. isAvailable s \<and> \<not> isBooked s \<Longrightarrow>
   \<forall>s \<in> set (slot_loop e h m c sl). isAvailable s \<and> \<not> isBooked s"
proof (induction e h m c sl rule: slot_loop.induct)
  case (1 e h m c sl)
  show ?case
  proof (cases "c < e")
    case True
    with "1" show ?thesis by (subst slot_loop.simps) simp
  next
    case False
    with "1.prems" show ?thesis by (subst slot_loop.simps) simp
  qed
qed

lemma generateTimeSlots_length:
  assumes "parseTime startText = Inr a" "parseTime endText = Inr b"
  shows "\<exists>sl. generateTimeSlots startText endText = Inr sl \<and>
              length sl = (hours b * 60 + minutes b - (hours a * 60 + minutes a) + 29) div 30 \<and>
              (\<forall>s \<in> set sl. isAvailable s \<and> \<not> isBooked s)"
  using assms slot_loop_flags [of "[]"]
  by (simp add: generateTimeSlots_def slot_loop_length)

lemma generateTimeSlots_empty:
  assumes "parseTime startText = Inr a" "parseTime endText = Inr b"
      and "hours b * 60 + minutes b \<le> hours a * 60 + minutes a"
  shows "generateTimeSlots startText endText = Inr []"
proof -
  have "slot_loop (hours b * 60 + minutes b) (hours a) (minutes a) (hours a * 60 + minutes a) [] = []"
    using assms(3) by (subst slot_loop.simps) simp
  with assms(1,2) show ?thesis by (simp add: generateTimeSlots_def)
qed

lemma generateTimeSlots_overnight: "generateTimeSlots ''11:30 PM'' ''12:30 AM'' = Inr []"
  by code_simp

lemma generateTimeSlots_workday:
  "generateTimeSlots ''9:00 AM'' ''5:00 PM'' =
     Inr (map (\<lambda>(s, e). \<lparr>startTime = s, endTime = e, isAvailable = True, isBooked = False, slot_date = None\<rparr>)
         [(''9:00 AM'', ''9:30 AM''),
          (''9:30 AM'', ''10:00 AM''),
          (''10:00 AM'', ''10:30 AM''),
          (''10:30 AM'', ''11:00 AM''),
          (''11:00 AM'', ''11:30 AM''),
          (''11:30 AM'', ''12:00 PM''),
          (''12:00 PM'', ''12:30 PM''),
          (''12:30 PM'', ''1:00 PM''),
          (''1:00 PM'', ''1:30 PM''),
          (''1:30 PM'', ''2:00 PM''),
          (''2:00 PM'', ''2:30 PM''),
          (''2:30 PM'', ''3:00 PM''),
          (''3:00 PM'', ''3:30 PM''),
          (''3:30 PM'', ''4:00 PM''),
          (''4:00 PM'', ''4:30 PM''),
          (''4:30 PM'', ''5:00 PM'')])"
  by code_simp

text \<open>
  C2, at a window that is no multiple of 30 minutes. From 9:00 AM (minute 540) to
  9:45 AM (minute 585) the bounds are 45 minutes apart, and
  \<open>generateTimeSlots\<close> returns two slots. The second, 9:30 AM to 10:00 AM, ends
  after the end of the window.
\<close>

theorem generateTimeSlots_overshoot:
  "generateTimeSlots ''9:00 AM'' ''9:45 AM'' =
     Inr [\<lparr>startTime = ''9:00 AM'', endTime = ''9:30 AM'', isAvailable = True, isBooked = False, slot_date = None\<rparr>,
          \<lparr>startTime = ''9:30 AM'', endTime = ''10:00 AM'', isAvailable = True, isBooked = False, slot_date = None\<rparr>]"
  by code_simp

section \<open>Properties of reconciliation\<close>

lemma isSlotBooked_iff:
  "isSlotBooked slot d n appts \<longleftrightarrow>
     (\<exists>a \<in> set appts. doctorName a = n \<and> date a = d \<and>
        appt_startTime a = startTime slot \<and> appt_endTime a = endTime slot)"
  by (simp add: isSlotBooked_def list_ex_iff)

lemma isSlotBooked_marked:
  "isSlotBooked (s\<lparr>isBooked := b, isAvailable := c\<rparr>) d n appts = isSlotBooked s d n appts"
  by (simp add: isSlotBooked_def)

lemma markBookedSlots_length: "length (markBookedSlots sl d n appts) = length sl"
  by (simp add: markBookedSlots_def)

lemma markBookedSlots_nth:
  "i < length sl \<Longrightarrow> markBookedSlots sl d n appts ! i =
     (sl ! i)\<lparr>isBooked := isSlotBooked (sl ! i) d n appts, isAvailable := \<not> isSlotBooked (sl ! i) d n appts\<rparr>"
  by (simp add: markBookedSlots_def)

lemma markBookedSlots_idem:
  "markBookedSlots (markBookedSlots sl d n appts) d n appts = markBookedSlots sl d n appts"
  by (simp add: markBookedSlots_def isSlotBooked_marked)

text \<open>
  C5. \<open>markBookedSlots\<close> returns a list of the same length; its slot at every
  index is the input slot with \<open>isBooked\<close> set to whether some appointment has
  that doctor name, date, start time and end time, \<open>isAvailable\<close> set to the
  negation, and every other field as it was; marking the result again with the
  same date, doctor and appointments changes nothing. The function builds its
  result with \<^verbatim>\<open>map\<close> and an object spread, so the input list is not written to.
\<close>

theorem markBookedSlots_spec:
  "length (markBookedSlots sl d n appts) = length sl \<and>
   (\<forall>i < length sl.
      markBookedSlots sl d n appts ! i =
        (sl ! i)\<lparr>isBooked := (\<exists>a \<in> set appts. doctorName a = n \<and> date a = d \<and>
                       appt_startTime a = startTime (sl ! i) \<and> appt_endTime a = endTime (sl ! i)),
                  isAvailable := \<not> (\<exists>a \<in> set appts. doctorName a = n \<and> date a = d \<and>
                       appt_startTime a = startTime (sl ! i) \<and> appt_endTime a = endTime (sl ! i))\<rparr>) \<and>
   markBookedSlots (markBookedSlots sl d n appts) d n appts = markBookedSlots sl d n appts"
proof (intro conjI allI impI)
  show "length (markBookedSlots sl d n appts) = length sl" by (rule markBookedSlots_length)
next
  fix i assume "i < length sl"
  then show "markBookedSlots sl d n appts ! i =
        (sl ! i)\<lparr>isBooked := (\<exists>a \<in> set appts. doctorName a = n \<and> date a = d \<and>
                       appt_startTime a = startTime (sl ! i) \<and> appt_endTime a = endTime (sl ! i)),
                  isAvailable := \<not> (\<exists>a \<in> set appts. doctorName a = n \<and> date a = d \<and>
                       appt_startTime a = startTime (sl ! i) \<and> appt_endTime a = endTime (sl ! i))\<rparr>"
    by (simp only: markBookedSlots_nth isSlotBooked_iff)
next
  show "markBookedSlots (markBookedSlots sl d n appts) d n appts = markBookedSlots sl d n appts"
    by (rule markBookedSlots_idem)
qed

theorem markBookedSlots_spec_witness:
  "markBookedSlots
     [\<lparr>startTime = ''9:00 AM'', endTime = ''9:30 AM'', isAvailable = True, isBooked = False, slot_date = None\<rparr>]
     ''2025-11-17'' ''Dr. Smith''
     [\<lparr>appt_id = ''1'', doctorName = ''Dr. Smith'', doctorTimezone = ''America/New_York'',
       date = ''2025-11-17'', appt_dayOfWeek = ''Monday'', appt_startTime = ''9:00 AM'',
       appt_endTime = ''9:30 AM'', bookedAt = ''2025-11-14T10:00:00.000Z''\<rparr>] ! 0 =
   \<lparr>startTime = ''9:00 AM'', endTime = ''9:30 AM'', isAvailable = False, isBooked = True, slot_date = None\<rparr>"
  using markBookedSlots_spec [of
     "[\<lparr>startTime = ''9:00 AM'', endTime = ''9:30 AM'', isAvailable = True, isBooked = False, slot_date = None\<rparr>]"
     "''2025-11-17''" "''Dr. Smith''"
     "[\<lparr>appt_id = ''1'', doctorName = ''Dr. Smith'', doctorTimezone = ''America/New_York'',
       date = ''2025-11-17'', appt_dayOfWeek = ''Monday'', appt_startTime = ''9:00 AM'',
       appt_endTime = ''9:30 AM'', bookedAt = ''2025-11-14T10:00:00.000Z''\<rparr>]"]
  by simp

section \<open>Properties of cancellation\<close>

lemma findIndex_None: "findIndex P xs = None \<longleftrightarrow> (\<forall>x \<in> set xs. \<not> P x)"
  by (induction xs) auto

lemma findIndex_Some:
  "findIndex P xs = Some i \<Longrightarrow>
     \<exists>pre x post. xs = pre @ x # post \<and> length pre = i \<and> P x \<and> (\<forall>y \<in> set pre. \<not> P y)"
proof (induction xs arbitrary: i)
  case Nil
  then show ?case by simp
next
  case (Cons a xs)
  show ?case
  proof (cases "P a")
    case True
    with Cons.prems have "i = 0" by simp
    with True show ?thesis by (intro exI [of _ "[]"]) auto
  next
    case False
    with Cons.prems obtain j where j: "findIndex P xs = Some j" "i = Suc j" by auto
    from Cons.IH [OF j(1)] obtain pre x post where
      "xs = pre @ x # post" "length pre = j" "P x" "\<forall>y \<in> set pre. \<not> P y" by blast
    with False j(2) show ?thesis
      by (intro exI [of _ "a # pre"] exI [of _ x] exI [of _ post]) auto
  qed
qed

lemma cancel_found:
  assumes "\<exists>a \<in> set l. appt_id a = i"
  shows "\<exists>pre a post. l = pre @ a # post \<and> appt_id a = i \<and> (\<forall>b \<in> set pre. appt_id b \<noteq> i) \<and>
           cancelAppointment i l = (None, pre @ post)"
proof -
  from assms have "findIndex (\<lambda>a. appt_id a = i) l \<noteq> None" by (simp add: findIndex_None)
  then obtain k where k: "findIndex (\<lambda>a. appt_id a = i) l = Some k" by auto
  from findIndex_Some [OF k] obtain pre a post where
    p: "l = pre @ a # post" "length pre = k" "appt_id a = i" "\<forall>b \<in> set pre. appt_id b \<noteq> i" by blast
  then have "splice1 k l = pre @ post" by (simp add: splice1_def)
  with k p show ?thesis by (auto simp add: cancelAppointment_def)
qed

lemma cancel_missing:
  "\<not> (\<exists>a \<in> set l. appt_id a = i) \<Longrightarrow> cancelAppointment i l = (Some AppointmentNotFound, l)"
  using findIndex_None [of "\<lambda>a. appt_id a = i" l] by (simp add: cancelAppointment_def)

text \<open>
  C7. \<open>cancelAppointment\<close> throws the not-found error and leaves the ledger as it
  is when no appointment has the id; when one has, it removes the first such entry
  and nothing else; with exactly one entry of that id, the first call succeeds and
  shortens the ledger by one, and a second call with the same id throws the
  not-found error.
\<close>

theorem cancelAppointment_spec:
  "(\<not> (\<exists>a \<in> set l. appt_id a = i) \<longrightarrow> cancelAppointment i l = (Some AppointmentNotFound, l)) \<and>
   ((\<exists>a \<in> set l. appt_id a = i) \<longrightarrow>
      (\<exists>pre a post. l = pre @ a # post \<and> appt_id a = i \<and> (\<forall>b \<in> set pre. appt_id b \<noteq> i) \<and>
          cancelAppointment i l = (None, pre @ post))) \<and>
   (length (filter (\<lambda>a. appt_id a = i) l) = 1 \<longrightarrow>
      fst (cancelAppointment i l) = None \<and>
      length (snd (cancelAppointment i l)) + 1 = length l \<and>
      cancelAppointment i (snd (cancelAppointment i l)) =
        (Some AppointmentNotFound, snd (cancelAppointment i l)))"
proof (intro conjI impI)
  assume "\<not> (\<exists>a \<in> set l. appt_id a = i)"
  then show "cancelAppointment i l = (Some AppointmentNotFound, l)" by (rule cancel_missing)
next
  assume "\<exists>a \<in> set l. appt_id a = i"
  then show "\<exists>pre a post. l = pre @ a # post \<and> appt_id a = i \<and> (\<forall>b \<in> set pre. appt_id b \<noteq> i) \<and>
          cancelAppointment i l = (None, pre @ post)" by (rule cancel_found)
next
  assume one: "length (filter (\<lambda>a. appt_id a = i) l) = 1"
  then have "filter (\<lambda>a. appt_id a = i) l \<noteq> []" by auto
  then have "\<exists>a \<in> set l. appt_id a = i" by (simp add: filter_empty_conv)
  from cancel_found [OF this] obtain pre a post where
    p: "l = pre @ a # post" "appt_id a = i" "\<forall>b \<in> set pre. appt_id b \<noteq> i"
       "cancelAppointment i l = (None, pre @ post)" by blast
  from one p(1,2) have "filter (\<lambda>a. appt_id a = i) (pre @ post) = []" by simp
  then have none: "\<not> (\<exists>b \<in> set (pre @ post). appt_id b = i)" by (auto simp add: filter_empty_conv)
  show "fst (cancelAppointment i l) = None" using p(4) by simp
  show "length (snd (cancelAppointment i l)) + 1 = length l" using p(1,4) by simp
  show "cancelAppointment i (snd (cancelAppointment i l)) =
        (Some AppointmentNotFound, snd (cancelAppointment i l))"
    using cancel_missing [OF none] p(4) by simp
qed


theorem cancelAppointment_spec_witness:
  "cancelAppointment ''a1'' [mockAppointment\<lparr>appt_id := ''A1''\<rparr>, mockAppointment\<lparr>appt_id := ''a1''\<rparr>] =
     (None, [mockAppointment\<lparr>appt_id := ''A1''\<rparr>]) \<and>
   cancelAppointment ''a1'' [mockAppointment\<lparr>appt_id := ''A1''\<rparr>] =
     (Some AppointmentNotFound, [mockAppointment\<lparr>appt_id := ''A1''\<rparr>])"
  using cancelAppointment_spec [of "[mockAppointment\<lparr>appt_id := ''A1''\<rparr>, mockAppointment\<lparr>appt_id := ''a1''\<rparr>]" "''a1''"]
        cancelAppointment_spec [of "[mockAppointment\<lparr>appt_id := ''A1''\<rparr>]" "''a1''"]
  by (simp add: mockAppointment_def cancelAppointment_def splice1_def)

section \<open>Properties of booking\<close>

lemma booked_iff_key:
  "list_ex (\<lambda>appt. doctorName appt = doctorName a \<and> date appt = date a \<and>
                   appt_startTime appt = appt_startTime a) l \<longleftrightarrow> slot_key a \<in> set (map slot_key l)"
proof -
  have "slot_key a \<in> set (map slot_key l) \<longleftrightarrow> (\<exists>b \<in> set l. slot_key b = slot_key a)"
    by (induction l) auto
  then show ?thesis by (simp add: list_ex_iff slot_key_def del: set_map)
qed

lemma book_duplicate:
  "slot_key a \<in> set (map slot_key l) \<Longrightarrow> bookAppointment a l = (Some AlreadyBooked, l)"
  by (simp add: bookAppointment_def booked_iff_key del: set_map)

lemma book_fresh:
  "slot_key a \<notin> set (map slot_key l) \<Longrightarrow> bookAppointment a l = (None, l @ [a])"
  by (simp add: bookAppointment_def booked_iff_key del: set_map)

lemma book_distinct:
  assumes "distinct (map slot_key l)"
  shows "distinct (map slot_key (snd (bookAppointment a l)))"
proof (cases "slot_key a \<in> set (map slot_key l)")
  case True
  with assms show ?thesis by (simp add: book_duplicate del: set_map)
next
  case False
  with assms show ?thesis by (simp add: book_fresh)
qed

lemma cancel_distinct:
  assumes "distinct (map slot_key l)"
  shows "distinct (map slot_key (snd (cancelAppointment i l)))"
proof (cases "\<exists>a \<in> set l. appt_id a = i")
  case True
  from cancel_found [OF True] obtain pre a post where
    "l = pre @ a # post" "cancelAppointment i l = (None, pre @ post)" by blast
  with assms show ?thesis by auto
next
  case False
  with assms show ?thesis by (simp add: cancel_missing)
qed

lemma perform_distinct:
  "distinct (map slot_key l) \<Longrightarrow> distinct (map slot_key (snd (perform act l)))"
  by (cases act) (simp_all add: book_distinct cancel_distinct)

lemma run_distinct:
  "distinct (map slot_key l) \<Longrightarrow> distinct (map slot_key (run acts l))"
  by (induction acts arbitrary: l) (simp_all add: perform_distinct)

text \<open>
  C1. Starting from the empty ledger, after any sequence of book and cancel calls
  no two appointments of the ledger have the same doctor name, date and start
  time. A book call whose appointment has the triple of an entry throws the
  already-booked error and leaves the ledger as it is; any other book call
  appends the appointment at the end.
\<close>

theorem ledger_uniqueness:
  "distinct (map slot_key (run acts [])) \<and>
   ((\<exists>b \<in> set l. doctorName b = doctorName a \<and> date b = date a \<and> appt_startTime b = appt_startTime a)
      \<longrightarrow> bookAppointment a l = (Some AlreadyBooked, l)) \<and>
   (\<not> (\<exists>b \<in> set l. doctorName b = doctorName a \<and> date b = date a \<and> appt_startTime b = appt_startTime a)
      \<longrightarrow> bookAppointment a l = (None, l @ [a]))"
proof (intro conjI impI)
  show "distinct (map slot_key (run acts []))" by (rule run_distinct) simp
next
  assume "\<exists>b \<in> set l. doctorName b = doctorName a \<and> date b = date a \<and> appt_startTime b = appt_startTime a"
  then have "slot_key a \<in> set (map slot_key l)" by (simp add: booked_iff_key [symmetric] list_ex_iff del: set_map)
  then show "bookAppointment a l = (Some AlreadyBooked, l)" by (rule book_duplicate)
next
  assume "\<not> (\<exists>b \<in> set l. doctorName b = doctorName a \<and> date b = date a \<and> appt_startTime b = appt_startTime a)"
  then have "slot_key a \<notin> set (map slot_key l)" by (simp add: booked_iff_key [symmetric] list_ex_iff del: set_map)
  then show "bookAppointment a l = (None, l @ [a])" by (rule book_fresh)
qed


theorem ledger_uniqueness_witness:
  "run [Book mockAppointment, Book (mockAppointment\<lparr>appt_id := ''2''\<rparr>), Cancel ''1'',
        Book (mockAppointment\<lparr>appt_id := ''3''\<rparr>), Book (mockAppointment\<lparr>appt_id := ''4'', date := ''2025-11-18''\<rparr>)] [] =
     [mockAppointment\<lparr>appt_id := ''3''\<rparr>, mockAppointment\<lparr>appt_id := ''4'', date := ''2025-11-18''\<rparr>] \<and>
   distinct (map slot_key (run [Book mockAppointment, Book (mockAppointment\<lparr>appt_id := ''2''\<rparr>), Cancel ''1'',
        Book (mockAppointment\<lparr>appt_id := ''3''\<rparr>), Book (mockAppointment\<lparr>appt_id := ''4'', date := ''2025-11-18''\<rparr>)] [])) \<and>
   bookAppointment (mockAppointment\<lparr>appt_id := ''2''\<rparr>) [mockAppointment] = (Some AlreadyBooked, [mockAppointment]) \<and>
   bookAppointment mockAppointment [] = (None, [mockAppointment])"
  using ledger_uniqueness [of "[Book mockAppointment, Book (mockAppointment\<lparr>appt_id := ''2''\<rparr>), Cancel ''1'',
        Book (mockAppointment\<lparr>appt_id := ''3''\<rparr>), Book (mockAppointment\<lparr>appt_id := ''4'', date := ''2025-11-18''\<rparr>)]"
        "[mockAppointment]" "mockAppointment\<lparr>appt_id := ''2''\<rparr>"]
        ledger_uniqueness [of "[]" "[]" mockAppointment]
  by (simp add: mockAppointment_def bookAppointment_def cancelAppointment_def splice1_def)


section \<open>Properties of grouping\<close>

lemma keys_group_step:
  "map fst (group_step m r) =
     (if raw_name r \<in> set (map fst m) then map fst m else map fst m @ [raw_name r])"
proof (cases "map_of m (raw_name r)")
  case None
  then have "raw_name r \<notin> set (map fst m)" by (simp add: map_of_eq_None_iff)
  with None show ?thesis
    by (simp add: group_step_def AList.update_conv' AList.update_keys del: set_map)
next
  case (Some d)
  then have "raw_name r \<in> set (map fst m)" by (metis map_of_eq_None_iff option.distinct(1) set_map)
  with Some show ?thesis
    by (simp add: group_step_def AList.update_keys del: set_map)
qed

lemma map_of_group_step:
  "map_of (group_step m r) k =
     (if k = raw_name r
      then Some ((case map_of m k of
                    None \<Rightarrow> \<lparr>name = raw_name r, timezone = raw_timezone r, schedules = []\<rparr>
                  | Some d \<Rightarrow> d)
                 \<lparr>schedules := schedules (case map_of m k of
                    None \<Rightarrow> \<lparr>name = raw_name r, timezone = raw_timezone r, schedules = []\<rparr>
                  | Some d \<Rightarrow> d) @ [schedule_entry r]\<rparr>)
      else map_of m k)"
  by (cases "map_of m (raw_name r)") (simp_all add: group_step_def AList.update_conv')

lemma keys_fold_distinct:
  "distinct (map fst m) \<Longrightarrow> distinct (map fst (foldl group_step m rs))"
  by (induction rs arbitrary: m) (simp_all add: keys_group_step del: set_map)

lemma keys_fold_set:
  "set (map fst (foldl group_step m rs)) = set (map fst m) \<union> set (map raw_name rs)"
  by (induction rs arbitrary: m) (auto simp add: keys_group_step simp del: set_map)

lemma names_step:
  "\<forall>k d. map_of m k = Some d \<longrightarrow> name d = k \<Longrightarrow>
   \<forall>k d. map_of (group_step m r) k = Some d \<longrightarrow> name d = k"
  by (auto simp add: map_of_group_step split: if_splits option.splits)

lemma names_fold:
  "\<forall>k d. map_of m k = Some d \<longrightarrow> name d = k \<Longrightarrow>
   \<forall>k d. map_of (foldl group_step m rs) k = Some d \<longrightarrow> name d = k"
proof (induction rs arbitrary: m)
  case Nil
  then show ?case by simp
next
  case (Cons r rs)
  from names_step [OF Cons.prems] have "\<forall>k d. map_of (group_step m r) k = Some d \<longrightarrow> name d = k" .
  from Cons.IH [OF this] show ?case by simp
qed

lemma schedules_fold:
  "map_of (foldl group_step m rs) k = Some d \<Longrightarrow>
     schedules d = (case map_of m k of None \<Rightarrow> [] | Some d0 \<Rightarrow> schedules d0) @
                   map schedule_entry (filter (\<lambda>r. raw_name r = k) rs)"
proof (induction rs arbitrary: m)
  case Nil
  then show ?case by simp
next
  case (Cons r rs)
  from Cons.prems have "map_of (foldl group_step (group_step m r) rs) k = Some d" by simp
  from Cons.IH [OF this] show ?case
    by (simp add: map_of_group_step split: option.splits)
qed


text \<open>
  C8. \<open>groupSchedulesByDoctor\<close> returns one doctor for each distinct name of the
  input, names compared as they are (two names that differ in case are two
  doctors), and the schedules of each doctor are the entries of the records with
  that name, in the order of the input.
\<close>

theorem groupSchedulesByDoctor_spec:
  "distinct (map name (groupSchedulesByDoctor rs)) \<and>
   set (map name (groupSchedulesByDoctor rs)) = set (map raw_name rs) \<and>
   (\<forall>d \<in> set (groupSchedulesByDoctor rs).
      schedules d = map schedule_entry (filter (\<lambda>r. raw_name r = name d) rs))"
proof -
  let ?M = "foldl group_step [] rs"
  have dist: "distinct (map fst ?M)" by (rule keys_fold_distinct) simp
  have names: "\<forall>k d. map_of ?M k = Some d \<longrightarrow> name d = k" by (rule names_fold) simp
  have pair: "name d = k \<and> schedules d = map schedule_entry (filter (\<lambda>r. raw_name r = k) rs)"
    if "(k, d) \<in> set ?M" for k d
  proof -
    from that dist have m: "map_of ?M k = Some d" by simp
    from schedules_fold [OF m] names m show ?thesis by simp
  qed
  have keys: "map name (groupSchedulesByDoctor rs) = map fst ?M"
    using pair by (auto simp add: groupSchedulesByDoctor_def)
  show ?thesis
  proof (intro conjI ballI)
    show "distinct (map name (groupSchedulesByDoctor rs))" using keys dist by simp
    show "set (map name (groupSchedulesByDoctor rs)) = set (map raw_name rs)"
      using keys keys_fold_set [of "[]" rs] by simp
  next
    fix d assume "d \<in> set (groupSchedulesByDoctor rs)"
    then obtain k where "(k, d) \<in> set ?M" by (auto simp add: groupSchedulesByDoctor_def)
    from pair [OF this] show "schedules d = map schedule_entry (filter (\<lambda>r. raw_name r = name d) rs)"
      by simp
  qed
qed

theorem groupSchedulesByDoctor_spec_witness:
  "groupSchedulesByDoctor
     [\<lparr>raw_name = ''Dr. Smith'', raw_timezone = ''America/New_York'', day_of_week = ''Friday'',
       available_at = '' 9:00 AM'', available_until = ''5:00 PM''\<rparr>,
      \<lparr>raw_name = ''dr. smith'', raw_timezone = ''America/New_York'', day_of_week = ''Tuesday'',
       available_at = ''9:00 AM'', available_until = ''5:00 PM''\<rparr>,
      \<lparr>raw_name = ''Dr. Smith'', raw_timezone = ''America/New_York'', day_of_week = ''Monday'',
       available_at = ''1:00 PM'', available_until = ''3:00 PM''\<rparr>] =
     [\<lparr>name = ''Dr. Smith'', timezone = ''America/New_York'',
       schedules = [\<lparr>dayOfWeek = ''Friday'', availableAt = ''9:00 AM'', availableUntil = ''5:00 PM''\<rparr>,
                    \<lparr>dayOfWeek = ''Monday'', availableAt = ''1:00 PM'', availableUntil = ''3:00 PM''\<rparr>]\<rparr>,
      \<lparr>name = ''dr. smith'', timezone = ''America/New_York'',
       schedules = [\<lparr>dayOfWeek = ''Tuesday'', availableAt = ''9:00 AM'', availableUntil = ''5:00 PM''\<rparr>]\<rparr>]"
  using groupSchedulesByDoctor_spec [of
     "[\<lparr>raw_name = ''Dr. Smith'', raw_timezone = ''America/New_York'', day_of_week = ''Friday'',
       available_at = '' 9:00 AM'', available_until = ''5:00 PM''\<rparr>,
      \<lparr>raw_name = ''dr. smith'', raw_timezone = ''America/New_York'', day_of_week = ''Tuesday'',
       available_at = ''9:00 AM'', available_until = ''5:00 PM''\<rparr>,
      \<lparr>raw_name = ''Dr. Smith'', raw_timezone = ''America/New_York'', day_of_week = ''Monday'',
       available_at = ''1:00 PM'', available_until = ''3:00 PM''\<rparr>]"]
  by (simp add: groupSchedulesByDoctor_def group_step_def schedule_entry_def trim_def is_space_def)


section \<open>Properties of the weekly projection\<close>

lemma find_first_window:
  "find (\<lambda>s. Some (dayOfWeek s) = wd) ws = Some w \<longleftrightarrow> (\<exists>k. first_window wd ws k \<and> w = ws ! k)"
  by (auto simp add: find_Some_iff first_window_def)

lemma find_no_window:
  "find (\<lambda>s. Some (dayOfWeek s) = wd) ws = None \<longleftrightarrow> (\<forall>w \<in> set ws. Some (dayOfWeek w) \<noteq> wd)"
  by (auto simp add: find_None_iff)

lemma first_window_unique: "first_window wd ws k \<Longrightarrow> first_window wd ws k' \<Longrightarrow> k = k'"
  unfolding first_window_def by (metis linorder_neqE_nat)

lemma slotsPerDay_loop_iff:
  "slotsPerDay_loop f doc ap ds acc = Inr res \<longleftrightarrow>
     (\<exists>new. res = acc @ new \<and> list_all2 (\<lambda>d e. day_entry f doc ap d = Inr e) ds new)"
proof (induction ds arbitrary: acc)
  case Nil
  then show ?case by auto
next
  case (Cons d ds)
  show ?case
  proof (cases "day_entry f doc ap d")
    case (Inl e)
    then show ?thesis by (auto simp add: list_all2_Cons1)
  next
    case (Inr entry)
    then show ?thesis by (auto simp add: Cons.IH list_all2_Cons1)
  qed
qed

lemma slotsPerDay_loop_fails:
  "slotsPerDay_loop f doc ap ds acc = Inl err \<Longrightarrow> \<exists>d \<in> set ds. day_entry f doc ap d = Inl err"
  by (induction ds arbitrary: acc) (auto split: sum.splits)


lemma day_entry_none:
  assumes "\<forall>w \<in> set (schedules doc). Some (dayOfWeek w) \<noteq> getDayOfWeek d"
  shows "day_entry f doc ap d =
           Inr \<lparr>info_date = d, dateString = formatDate d, dayName = getDayOfWeek d,
                displayDate = f d, schedule = None, slots = []\<rparr>"
  using assms find_no_window [of "getDayOfWeek d" "schedules doc"]
  by (simp add: day_entry_def)

lemma day_entry_first:
  assumes "first_window (getDayOfWeek d) (schedules doc) k"
  shows "day_entry f doc ap d =
           (case generateTimeSlots (availableAt (schedules doc ! k)) (availableUntil (schedules doc ! k)) of
              Inl e \<Rightarrow> Inl e
            | Inr sl \<Rightarrow>
                Inr \<lparr>info_date = d, dateString = formatDate d, dayName = getDayOfWeek d,
                     displayDate = f d, schedule = Some (schedules doc ! k),
                     slots = markBookedSlots sl (formatDate d) (name doc) ap\<rparr>)"
proof -
  from assms have "find (\<lambda>s. Some (dayOfWeek s) = getDayOfWeek d) (schedules doc) = Some (schedules doc ! k)"
    by (auto simp add: find_first_window)
  then show ?thesis by (simp add: day_entry_def)
qed

lemma day_entry_date:
  "day_entry f doc ap d = Inr e \<Longrightarrow> info_date e = d \<and> dayName e = getDayOfWeek d \<and> dateString e = formatDate d"
  by (auto simp add: day_entry_def split: option.splits sum.splits)

lemma day_entry_total:
  assumes "\<forall>k. first_window (getDayOfWeek d) (schedules doc) k \<longrightarrow>
             (\<exists>sl. generateTimeSlots (availableAt (schedules doc ! k)) (availableUntil (schedules doc ! k)) = Inr sl)"
  shows "\<exists>e. day_entry f doc ap d = Inr e"
proof (cases "find (\<lambda>s. Some (dayOfWeek s) = getDayOfWeek d) (schedules doc)")
  case None
  then show ?thesis by (simp add: day_entry_def)
next
  case (Some w)
  then obtain k where k: "first_window (getDayOfWeek d) (schedules doc) k" "w = schedules doc ! k"
    by (auto simp add: find_first_window)
  with assms obtain sl where
    "generateTimeSlots (availableAt (schedules doc ! k)) (availableUntil (schedules doc ! k)) = Inr sl"
    by blast
  with k show ?thesis by (simp add: day_entry_first)
qed

text \<open>
  C9. The weekly projection has one entry for each projected day, seven for the
  dates of \<open>getNextWeekDates\<close>. The entry of a day takes the first window of
  the doctor's schedule list whose \<open>dayOfWeek\<close> is the weekday name of the day:
  its slots are generated from that window alone and marked against the
  appointments, whatever later windows of the same weekday there are. When no
  window has the weekday name, the entry has no schedule and an empty slot list.
  The projection returns whenever slot generation succeeds on the first window of
  every projected day.
\<close>

theorem slotsPerDay_first_window:
  "(slotsPerDay f doctor appts weekDates = Inr result \<longrightarrow>
      length result = length weekDates \<and>
      (\<forall>i < length weekDates.
         info_date (result ! i) = weekDates ! i \<and>
         dayName (result ! i) = getDayOfWeek (weekDates ! i) \<and>
         ((\<forall>w \<in> set (schedules doctor). Some (dayOfWeek w) \<noteq> getDayOfWeek (weekDates ! i)) \<longrightarrow>
            schedule (result ! i) = None \<and> slots (result ! i) = []) \<and>
         (\<forall>k. first_window (getDayOfWeek (weekDates ! i)) (schedules doctor) k \<longrightarrow>
            schedule (result ! i) = Some (schedules doctor ! k) \<and>
            (\<exists>sl. generateTimeSlots (availableAt (schedules doctor ! k))
                     (availableUntil (schedules doctor ! k)) = Inr sl \<and>
                  slots (result ! i) =
                    markBookedSlots sl (formatDate (weekDates ! i)) (name doctor) appts)))) \<and>
   ((\<forall>d \<in> set weekDates. \<forall>k. first_window (getDayOfWeek d) (schedules doctor) k \<longrightarrow>
        (\<exists>sl. generateTimeSlots (availableAt (schedules doctor ! k))
                 (availableUntil (schedules doctor ! k)) = Inr sl))
      \<longrightarrow> (\<exists>r. slotsPerDay f doctor appts weekDates = Inr r)) \<and>
   length (getNextWeekDates addDays today) = 7"
proof (intro conjI impI allI)
  assume ok: "slotsPerDay f doctor appts weekDates = Inr result"
  then have all: "list_all2 (\<lambda>d e. day_entry f doctor appts d = Inr e) weekDates result"
    by (simp add: slotsPerDay_def slotsPerDay_loop_iff)
  then show "length result = length weekDates" by (simp add: list_all2_lengthD)
  fix i assume i: "i < length weekDates"
  with all have e: "day_entry f doctor appts (weekDates ! i) = Inr (result ! i)"
    by (simp add: list_all2_conv_all_nth)
  from day_entry_date [OF e] show "info_date (result ! i) = weekDates ! i" by simp
  from day_entry_date [OF e] show "dayName (result ! i) = getDayOfWeek (weekDates ! i)" by simp
  {
    assume "\<forall>w \<in> set (schedules doctor). Some (dayOfWeek w) \<noteq> getDayOfWeek (weekDates ! i)"
    from day_entry_none [OF this, of f appts] e
    show "schedule (result ! i) = None" and "slots (result ! i) = []" by auto
  }
  {
    fix k assume k: "first_window (getDayOfWeek (weekDates ! i)) (schedules doctor) k"
    from day_entry_first [OF k, of f appts] e
    show "schedule (result ! i) = Some (schedules doctor ! k)"
      by (auto split: sum.splits)
    from day_entry_first [OF k, of f appts] e
    show "\<exists>sl. generateTimeSlots (availableAt (schedules doctor ! k))
                     (availableUntil (schedules doctor ! k)) = Inr sl \<and>
                  slots (result ! i) =
                    markBookedSlots sl (formatDate (weekDates ! i)) (name doctor) appts"
      by (auto split: sum.splits)
  }
next
  assume gen: "\<forall>d \<in> set weekDates. \<forall>k. first_window (getDayOfWeek d) (schedules doctor) k \<longrightarrow>
        (\<exists>sl. generateTimeSlots (availableAt (schedules doctor ! k))
                 (availableUntil (schedules doctor ! k)) = Inr sl)"
  show "\<exists>r. slotsPerDay f doctor appts weekDates = Inr r"
  proof (cases "slotsPerDay f doctor appts weekDates")
    case (Inl err)
    then obtain d where d: "d \<in> set weekDates" "day_entry f doctor appts d = Inl err"
      using slotsPerDay_loop_fails [of f doctor appts weekDates "[]" err]
      by (auto simp add: slotsPerDay_def)
    from gen d(1) have "\<exists>e. day_entry f doctor appts d = Inr e"
      by (intro day_entry_total) blast
    with d(2) show ?thesis by simp
  next
    case (Inr r)
    then show ?thesis by blast
  qed
next
  show "length (getNextWeekDates addDays today) = 7" by (simp add: getNextWeekDates_def)
qed


lemma week_example:
  "slotsPerDay (\<lambda>d. '''') example_doctor [mockAppointment] [example_monday, example_tuesday] =
   Inr [\<lparr>info_date = example_monday,
         dateString = ''2025-11-17'', dayName = Some ''Monday'', displayDate = '''',
         schedule = Some \<lparr>dayOfWeek = ''Monday'', availableAt = ''9:00 AM'', availableUntil = ''10:00 AM''\<rparr>,
         slots = [\<lparr>startTime = ''9:00 AM'', endTime = ''9:30 AM'', isAvailable = False, isBooked = True, slot_date = None\<rparr>,
                  \<lparr>startTime = ''9:30 AM'', endTime = ''10:00 AM'', isAvailable = True, isBooked = False, slot_date = None\<rparr>]\<rparr>,
        \<lparr>info_date = example_tuesday,
         dateString = ''2025-11-18'', dayName = Some ''Tuesday'', displayDate = '''',
         schedule = None, slots = []\<rparr>]"
  by code_simp

theorem slotsPerDay_first_window_witness:
  "slotsPerDay (\<lambda>d. '''') example_doctor [mockAppointment] [example_monday, example_tuesday] =
   Inr [\<lparr>info_date = example_monday,
         dateString = ''2025-11-17'', dayName = Some ''Monday'', displayDate = '''',
         schedule = Some \<lparr>dayOfWeek = ''Monday'', availableAt = ''9:00 AM'', availableUntil = ''10:00 AM''\<rparr>,
         slots = [\<lparr>startTime = ''9:00 AM'', endTime = ''9:30 AM'', isAvailable = False, isBooked = True, slot_date = None\<rparr>,
                  \<lparr>startTime = ''9:30 AM'', endTime = ''10:00 AM'', isAvailable = True, isBooked = False, slot_date = None\<rparr>]\<rparr>,
        \<lparr>info_date = example_tuesday,
         dateString = ''2025-11-18'', dayName = Some ''Tuesday'', displayDate = '''',
         schedule = None, slots = []\<rparr>] \<and>
   first_window (getDayOfWeek example_monday) (schedules example_doctor) 0 \<and>
   \<not> list_ex (\<lambda>w. Some (dayOfWeek w) = getDayOfWeek example_tuesday) (schedules example_doctor) \<and>
   length (getNextWeekDates (\<lambda>d i. d\<lparr>getDate := getDate d + i, getDay := (getDay d + i) mod 7\<rparr>)
             example_monday) = 7"
  using slotsPerDay_first_window [where f = "\<lambda>d. ''''"
      and doctor = example_doctor
      and appts = "[mockAppointment]"
      and weekDates = "[example_monday, example_tuesday]"
      and result = "[\<lparr>info_date = example_monday,
         dateString = ''2025-11-17'', dayName = Some ''Monday'', displayDate = '''',
         schedule = Some \<lparr>dayOfWeek = ''Monday'', availableAt = ''9:00 AM'', availableUntil = ''10:00 AM''\<rparr>,
         slots = [\<lparr>startTime = ''9:00 AM'', endTime = ''9:30 AM'', isAvailable = False, isBooked = True, slot_date = None\<rparr>,
                  \<lparr>startTime = ''9:30 AM'', endTime = ''10:00 AM'', isAvailable = True, isBooked = False, slot_date = None\<rparr>]\<rparr>,
        \<lparr>info_date = example_tuesday,
         dateString = ''2025-11-18'', dayName = Some ''Tuesday'', displayDate = '''',
         schedule = None, slots = []\<rparr>]"
      and addDays = "\<lambda>d i. d\<lparr>getDate := getDate d + i, getDay := (getDay d + i) mod 7\<rparr>"
      and today = example_monday]
    week_example
  by (simp add: first_window_def example_doctor_def example_monday_def example_tuesday_def
        getDayOfWeek_def days_def)


section \<open>Properties of the derived views\<close>

lemma insert_by_key:
  "\<forall>y \<in> set ys. (cmp x y \<le> 0) = (k x \<le> k y) \<Longrightarrow> insert_by cmp x ys = insort_key k x ys"
  by (induction ys) simp_all

lemma sort_by_key:
  "\<forall>x \<in> set xs. \<forall>y \<in> set xs. (cmp x y \<le> 0) = (k x \<le> (k y :: int)) \<Longrightarrow>
   sort_by cmp xs = sort_key k xs"
proof (induction xs)
  case Nil
  then show ?case by (simp add: sort_by_def)
next
  case (Cons x xs)
  then have ih: "sort_by cmp xs = sort_key k xs" by simp
  have "insert_by cmp x (sort_key k xs) = insort_key k x (sort_key k xs)"
    using Cons.prems by (intro insert_by_key) simp
  with ih show ?case by (simp add: sort_by_def)
qed

lemma upcoming_sort_key:
  "upcomingAppointments nd now l =
     sort_key (\<lambda>a. the (nd (date a)))
       (filter (\<lambda>a. case nd (date a) of Some t \<Rightarrow> now \<le> t | None \<Rightarrow> False) l)"
  unfolding upcomingAppointments_def
  by (rule sort_by_key) (auto simp add: getTime_minus_def split: option.splits)

lemma past_sort_key:
  "pastAppointments nd now l =
     sort_key (\<lambda>a. - the (nd (date a)))
       (filter (\<lambda>a. case nd (date a) of Some t \<Rightarrow> t < now | None \<Rightarrow> False) l)"
  unfolding pastAppointments_def
  by (rule sort_by_key) (auto simp add: getTime_minus_def split: option.splits)

lemma upcoming_mset:
  "mset (upcomingAppointments nd now l) = mset (filter (\<lambda>a. \<exists>t. nd (date a) = Some t \<and> now \<le> t) l)"
proof -
  have "filter (\<lambda>a. case nd (date a) of Some t \<Rightarrow> now \<le> t | None \<Rightarrow> False) l =
        filter (\<lambda>a. \<exists>t. nd (date a) = Some t \<and> now \<le> t) l"
    by (rule filter_cong) (auto split: option.splits)
  then show ?thesis by (simp add: upcoming_sort_key del: mset_filter)
qed

lemma past_mset:
  "mset (pastAppointments nd now l) = mset (filter (\<lambda>a. \<exists>t. nd (date a) = Some t \<and> t < now) l)"
proof -
  have "filter (\<lambda>a. case nd (date a) of Some t \<Rightarrow> t < now | None \<Rightarrow> False) l =
        filter (\<lambda>a. \<exists>t. nd (date a) = Some t \<and> t < now) l"
    by (rule filter_cong) (auto split: option.splits)
  then show ?thesis by (simp add: past_sort_key del: mset_filter)
qed

lemma upcoming_set:
  "set (upcomingAppointments nd now l) = {a \<in> set l. \<exists>t. nd (date a) = Some t \<and> now \<le> t}"
  using upcoming_mset [of nd now l, THEN arg_cong [where f = set_mset]] by simp

lemma past_set:
  "set (pastAppointments nd now l) = {a \<in> set l. \<exists>t. nd (date a) = Some t \<and> t < now}"
  using past_mset [of nd now l, THEN arg_cong [where f = set_mset]] by simp

lemma upcoming_sorted:
  "sorted_wrt (\<lambda>a b. \<exists>ta tb. nd (date a) = Some ta \<and> nd (date b) = Some tb \<and> ta \<le> tb)
     (upcomingAppointments nd now l)"
proof -
  have "sorted (map (\<lambda>a. the (nd (date a))) (upcomingAppointments nd now l))"
    by (simp add: upcoming_sort_key)
  then have "sorted_wrt (\<lambda>a b. the (nd (date a)) \<le> the (nd (date b))) (upcomingAppointments nd now l)"
    by (simp add: sorted_map)
  then show ?thesis
    by (rule sorted_wrt_mono_rel [rotated]) (auto simp add: upcoming_set)
qed

lemma past_sorted:
  "sorted_wrt (\<lambda>a b. \<exists>ta tb. nd (date a) = Some ta \<and> nd (date b) = Some tb \<and> tb \<le> ta)
     (pastAppointments nd now l)"
proof -
  have "sorted (map (\<lambda>a. - the (nd (date a))) (pastAppointments nd now l))"
    by (simp add: past_sort_key)
  then have "sorted_wrt (\<lambda>a b. - the (nd (date a)) \<le> - the (nd (date b))) (pastAppointments nd now l)"
    by (simp add: sorted_map)
  then show ?thesis
    by (rule sorted_wrt_mono_rel [rotated]) (auto simp add: past_set)
qed

text \<open>
  What \<open>formatDate\<close> writes for a calendar day with a four-digit year parses back,
  as a date-only string, to midnight UTC of that day.
\<close>

lemma digit_chars: "list_all (\<lambda>n. is_digit (digit_char n) \<and> digit_val (digit_char n) = n) [0..<10]"
  by code_simp

lemma digit_char_digit: "n < 10 \<Longrightarrow> is_digit (digit_char n) \<and> digit_val (digit_char n) = n"
  using digit_chars by (auto simp add: list_all_iff simp del: upt_Suc)

lemma parseInt_snoc: "parseInt (ds @ [c]) = 10 * parseInt ds + digit_val c"
  by (simp add: parseInt_def)

lemma toString_digits: "list_all is_digit (toString n) \<and> parseInt (toString n) = n"
proof (induction n rule: toString.induct)
  case (1 n)
  show ?case
  proof (cases "n < 10")
    case True
    then show ?thesis
      using digit_char_digit [of n] by (simp add: toString_small parseInt_1)
  next
    case False
    have "n mod 10 < 10" by simp
    from digit_char_digit [OF this] False "1" show ?thesis
      by (subst (1 2) toString.simps) (simp add: parseInt_snoc)
  qed
qed

lemma toString_length_2: "10 \<le> n \<Longrightarrow> n < 100 \<Longrightarrow> length (toString n) = 2"
  by (subst toString.simps) (simp add: toString_small)

lemma toString_length_3: "100 \<le> n \<Longrightarrow> n < 1000 \<Longrightarrow> length (toString n) = 3"
  by (subst toString.simps) (simp add: toString_length_2)

lemma toString_length_4: "1000 \<le> n \<Longrightarrow> n < 10000 \<Longrightarrow> length (toString n) = 4"
  by (subst toString.simps) (simp add: toString_length_3)


lemma len4: "length ys = 4 \<Longrightarrow> \<exists>a b c d. ys = [a, b, c, d]"
  by (cases ys; simp; cases "tl ys"; simp; cases "tl (tl ys)"; simp; cases "tl (tl (tl ys))"; auto)

lemma year_text:
  assumes "1000 \<le> n" "n < 10000"
  shows "\<exists>a b c d. toString n = [a, b, c, d] \<and> list_all is_digit [a, b, c, d] \<and> parseInt [a, b, c, d] = n"
proof -
  from len4 [OF toString_length_4 [OF assms]] obtain a b c d where "toString n = [a, b, c, d]" by blast
  with toString_digits [of n] show ?thesis by auto
qed

lemma two_digit_text:
  assumes "n < 100"
  shows "\<exists>a b. padStart 2 CHR ''0'' (toString n) = [a, b] \<and> is_digit a \<and> is_digit b \<and> parseInt [a, b] = n"
proof (cases "n < 10")
  case True
  with digit_char_digit [of n] show ?thesis
    by (simp add: toString_small padStart_def parseInt_2 is_digit_def digit_val_def)
next
  case False
  with assms have "length (toString n) = 2" by (simp add: toString_length_2)
  from len2 [OF this] obtain a b where ab: "toString n = [a, b]" by blast
  with toString_digits [of n] show ?thesis by (simp add: padStart_def)
qed

lemma parse_formatDate:
  assumes "1000 \<le> getFullYear d" "getFullYear d < 10000" "getMonth d < 12"
      and "1 \<le> getDate d" "getDate d \<le> 31"
  shows "Date_parse_date_only (formatDate d) = Some (local_midnight 0 d)"
proof -
  from year_text [OF assms(1,2)] obtain y1 y2 y3 y4 where
    y: "toString (getFullYear d) = [y1, y2, y3, y4]" "list_all is_digit [y1, y2, y3, y4]"
       "parseInt [y1, y2, y3, y4] = getFullYear d" by blast
  from assms(3) have "getMonth d + 1 < 100" by simp
  from two_digit_text [OF this] obtain m1 m2 where
    m: "padStart 2 CHR ''0'' (toString (getMonth d + 1)) = [m1, m2]" "is_digit m1" "is_digit m2"
       "parseInt [m1, m2] = getMonth d + 1" by blast
  from assms(5) have "getDate d < 100" by simp
  from two_digit_text [OF this] obtain d1 d2 where
    dd: "padStart 2 CHR ''0'' (toString (getDate d)) = [d1, d2]" "is_digit d1" "is_digit d2"
       "parseInt [d1, d2] = getDate d" by blast
  have "formatDate d = [y1, y2, y3, y4, CHR ''-'', m1, m2, CHR ''-'', d1, d2]"
    using y(1) m(1) dd(1) by (simp add: formatDate_def)
  then show ?thesis
    using y(2,3) m(2,3,4) dd(2,3,4) assms by (simp add: local_midnight_def add.commute)
qed


text \<open>
  C6, as amended. For every ledger, every parser \<open>newDate\<close> and every \<open>now\<close>:
  \<open>upcomingAppointments\<close> holds exactly the appointments whose date parses to an
  instant at or after \<open>now\<close>, in ascending order of that instant;
  \<open>pastAppointments\<close> holds exactly those whose date parses to an instant before
  \<open>now\<close>, in descending order; an appointment with an invalid date is in
  neither. So an appointment whose date parses to the instant \<open>t\<close> is past
  exactly when \<open>t < now\<close> and upcoming exactly when \<open>now \<le> t\<close>. With the parser
  of date-only strings, an appointment dated the calendar day \<open>d\<close>, as
  \<open>formatDate\<close> writes it, parses to midnight UTC of that day: in a zone
  \<open>offsetMinutes\<close> ahead of UTC that is \<open>offsetMinutes\<close> after local midnight of
  \<open>d\<close>, and the appointment is past exactly for the times later than that
  instant, not for the times later than local midnight.
\<close>

theorem views_by_parsed_instant:
  "mset (upcomingAppointments newDate now l) =
     mset (filter (\<lambda>a. \<exists>t. newDate (date a) = Some t \<and> now \<le> t) l) \<and>
   sorted_wrt (\<lambda>a b. \<exists>ta tb. newDate (date a) = Some ta \<and> newDate (date b) = Some tb \<and> ta \<le> tb)
     (upcomingAppointments newDate now l) \<and>
   mset (pastAppointments newDate now l) =
     mset (filter (\<lambda>a. \<exists>t. newDate (date a) = Some t \<and> t < now) l) \<and>
   sorted_wrt (\<lambda>a b. \<exists>ta tb. newDate (date a) = Some ta \<and> newDate (date b) = Some tb \<and> tb \<le> ta)
     (pastAppointments newDate now l) \<and>
   (\<forall>a \<in> set l. \<forall>t. newDate (date a) = Some t \<longrightarrow>
      (a \<in> set (pastAppointments newDate now l) \<longleftrightarrow> t < now) \<and>
      (a \<in> set (upcomingAppointments newDate now l) \<longleftrightarrow> now \<le> t)) \<and>
   (\<forall>a \<in> set l. \<forall>d.
      date a = formatDate d \<and> 1000 \<le> getFullYear d \<and> getFullYear d < 10000 \<and>
      getMonth d < 12 \<and> 1 \<le> getDate d \<and> getDate d \<le> 31 \<longrightarrow>
      Date_parse_date_only (date a) = Some (local_midnight offsetMinutes d + offsetMinutes * 60000) \<and>
      (a \<in> set (pastAppointments Date_parse_date_only now l) \<longleftrightarrow>
         local_midnight offsetMinutes d + offsetMinutes * 60000 < now) \<and>
      (a \<in> set (upcomingAppointments Date_parse_date_only now l) \<longleftrightarrow>
         now \<le> local_midnight offsetMinutes d + offsetMinutes * 60000))"
proof (intro conjI ballI allI impI)
  show "mset (upcomingAppointments newDate now l) =
     mset (filter (\<lambda>a. \<exists>t. newDate (date a) = Some t \<and> now \<le> t) l)" by (rule upcoming_mset)
  show "sorted_wrt (\<lambda>a b. \<exists>ta tb. newDate (date a) = Some ta \<and> newDate (date b) = Some tb \<and> ta \<le> tb)
     (upcomingAppointments newDate now l)" by (rule upcoming_sorted)
  show "mset (pastAppointments newDate now l) =
     mset (filter (\<lambda>a. \<exists>t. newDate (date a) = Some t \<and> t < now) l)" by (rule past_mset)
  show "sorted_wrt (\<lambda>a b. \<exists>ta tb. newDate (date a) = Some ta \<and> newDate (date b) = Some tb \<and> tb \<le> ta)
     (pastAppointments newDate now l)" by (rule past_sorted)
next
  fix a t assume "a \<in> set l" "newDate (date a) = Some t"
  then show "a \<in> set (pastAppointments newDate now l) \<longleftrightarrow> t < now" by (simp add: past_set)
next
  fix a t assume "a \<in> set l" "newDate (date a) = Some t"
  then show "a \<in> set (upcomingAppointments newDate now l) \<longleftrightarrow> now \<le> t" by (simp add: upcoming_set)
next
  fix a d
  assume a: "a \<in> set l"
    and d: "date a = formatDate d \<and> 1000 \<le> getFullYear d \<and> getFullYear d < 10000 \<and>
      getMonth d < 12 \<and> 1 \<le> getDate d \<and> getDate d \<le> 31"
  have shift: "local_midnight offsetMinutes d + offsetMinutes * 60000 = local_midnight 0 d"
    by (simp add: local_midnight_def)
  from d have p: "Date_parse_date_only (date a) = Some (local_midnight 0 d)"
    by (simp add: parse_formatDate)
  show "Date_parse_date_only (date a) = Some (local_midnight offsetMinutes d + offsetMinutes * 60000)"
    using p shift by simp
  show "a \<in> set (pastAppointments Date_parse_date_only now l) \<longleftrightarrow>
         local_midnight offsetMinutes d + offsetMinutes * 60000 < now"
    using a p shift by (simp add: past_set)
  show "a \<in> set (upcomingAppointments Date_parse_date_only now l) \<longleftrightarrow>
         now \<le> local_midnight offsetMinutes d + offsetMinutes * 60000"
    using a p shift by (simp add: upcoming_set)
qed


lemma views_example:
  "map date (upcomingAppointments Date_parse_date_only 1763139600000
      [mockAppointment\<lparr>date := ''2026-01-15''\<rparr>, mockAppointment\<lparr>date := ''2020-01-10''\<rparr>,
       mockAppointment, mockAppointment\<lparr>date := ''2020-01-15''\<rparr>]) =
     [''2025-11-17'', ''2026-01-15''] \<and>
   map date (pastAppointments Date_parse_date_only 1763139600000
      [mockAppointment\<lparr>date := ''2026-01-15''\<rparr>, mockAppointment\<lparr>date := ''2020-01-10''\<rparr>,
       mockAppointment, mockAppointment\<lparr>date := ''2020-01-15''\<rparr>]) =
     [''2020-01-15'', ''2020-01-10''] \<and>
   date mockAppointment = formatDate example_monday \<and>
   Date_parse_date_only (date mockAppointment) = Some (local_midnight 480 example_monday + 480 * 60000) \<and>
   1763139600000 \<le> local_midnight 480 example_monday + 480 * 60000"
  by code_simp

theorem views_by_parsed_instant_witness:
  "map date (upcomingAppointments Date_parse_date_only 1763139600000
      [mockAppointment\<lparr>date := ''2026-01-15''\<rparr>, mockAppointment\<lparr>date := ''2020-01-10''\<rparr>,
       mockAppointment, mockAppointment\<lparr>date := ''2020-01-15''\<rparr>]) =
     [''2025-11-17'', ''2026-01-15''] \<and>
   map date (pastAppointments Date_parse_date_only 1763139600000
      [mockAppointment\<lparr>date := ''2026-01-15''\<rparr>, mockAppointment\<lparr>date := ''2020-01-10''\<rparr>,
       mockAppointment, mockAppointment\<lparr>date := ''2020-01-15''\<rparr>]) =
     [''2020-01-15'', ''2020-01-10''] \<and>
   date mockAppointment = formatDate example_monday \<and>
   Date_parse_date_only (date mockAppointment) = Some (local_midnight 480 example_monday + 480 * 60000) \<and>
   1763139600000 \<le> local_midnight 480 example_monday + 480 * 60000"
  by (insert views_by_parsed_instant [of Date_parse_date_only 1763139600000
      "[mockAppointment\<lparr>date := ''2026-01-15''\<rparr>, mockAppointment\<lparr>date := ''2020-01-10''\<rparr>,
       mockAppointment, mockAppointment\<lparr>date := ''2020-01-15''\<rparr>]" 480],
      rule views_example)

text \<open>
  C6, as stated, fails east of UTC. A date-only string parses to midnight UTC.
  In a zone eight hours ahead of UTC, at 01:00 local time on Saturday 15 November
  2025 (17:00 UTC of the 14th), local midnight of that day has passed, and an
  appointment dated that day is still upcoming and not past.
\<close>

theorem same_day_east_of_utc_counterexample:
  "date saturday_appointment = formatDate example_saturday \<and>
   local_midnight 480 example_saturday < 1763139600000 \<and>
   1763139600000 < local_midnight 480 example_saturday + 86400000 \<and>
   pastAppointments Date_parse_date_only 1763139600000 [saturday_appointment] = [] \<and>
   upcomingAppointments Date_parse_date_only 1763139600000 [saturday_appointment] = [saturday_appointment]"
  by code_simp

end
